theory Spec2Isabelle
  imports Complex_Main
begin

section \<open>ComponentTransitionAnimation.tsx: values\<close>

text \<open>
  The component's numbers are JavaScript numbers. The finite ones are kept as exact
  rationals: the only arithmetic of the source is one division by 2, which is exact on
  doubles away from the underflow boundary. Negative zero, NaN and the two infinities are
  values of their own, because \<open>===\<close>, \<open>||\<close> and \<open>| 0\<close> treat them specially.
  Equality of HOL on this type is JavaScript's \<open>Object.is\<close>, which is what React uses
  to compare hook dependencies.
\<close>

datatype number = Fin rat | NegZero | NaN | PosInf | NegInf

text \<open>\<open>a === b\<close> on numbers: NaN equals nothing, the two zeros are equal.\<close>

fun unsigned_zero :: "number \<Rightarrow> number" where
  "unsigned_zero NegZero = Fin 0"
| "unsigned_zero x = x"

definition strict_eq :: "number \<Rightarrow> number \<Rightarrow> bool" where
  "strict_eq a b = (a \<noteq> NaN \<and> b \<noteq> NaN \<and> unsigned_zero a = unsigned_zero b)"

text \<open>Truthiness of a number, as \<open>||\<close> tests it: the zeros and NaN are falsy.\<close>

fun ToBoolean :: "number \<Rightarrow> bool" where
  "ToBoolean (Fin r) = (r \<noteq> 0)"
| "ToBoolean NegZero = False"
| "ToBoolean NaN = False"
| "ToBoolean PosInf = True"
| "ToBoolean NegInf = True"

text \<open>\<open>x / 2\<close>.\<close>

fun halve :: "number \<Rightarrow> number" where
  "halve (Fin r) = Fin (r / 2)"
| "halve x = x"

text \<open>
  \<open>x | 0\<close> is the ToInt32 conversion of \<open>x\<close>: NaN and the infinities give 0, a finite
  value is truncated towards zero and reduced modulo \<open>2^32\<close> into the signed range.
\<close>

definition trunc :: "rat \<Rightarrow> int" where
  "trunc r = (if r < 0 then - \<lfloor>- r\<rfloor> else \<lfloor>r\<rfloor>)"

definition wrap32 :: "int \<Rightarrow> int" where
  "wrap32 k = (let m = k mod 2 ^ 32 in if 2 ^ 31 \<le> m then m - 2 ^ 32 else m)"

fun ToInt32 :: "number \<Rightarrow> number" where
  "ToInt32 (Fin r) = Fin (of_int (wrap32 (trunc r)))"
| "ToInt32 x = Fin 0"

text \<open>
  Style records (\<open>React.CSSProperties\<close>) are objects: keys in insertion order, each key
  once. Writing a property replaces the value of a key that is present and appends a new
  key; the spread \<open>{...target, ...source}\<close> writes the properties of the source one by one.
\<close>

datatype css_value = CssNum number | CssStr string

type_synonym css = "(string \<times> css_value) list"

fun set_prop :: "string \<Rightarrow> css_value \<Rightarrow> css \<Rightarrow> css" where
  "set_prop k v [] = [(k, v)]"
| "set_prop k v ((k', v') # ps) =
     (if k' = k then (k', v) # ps else (k', v') # set_prop k v ps)"

fun spread :: "css \<Rightarrow> css \<Rightarrow> css" where
  "spread target [] = target"
| "spread target ((k, v) # source) = spread (set_prop k v target) source"

definition get_prop :: "css \<Rightarrow> string \<Rightarrow> css_value option" where
  "get_prop obj k = map_of obj k"

definition well_formed :: "css \<Rightarrow> bool" where
  "well_formed obj = distinct (map fst obj)"

section \<open>Props and their defaults (lines 35 to 46)\<close>

text \<open>The source's local names end in an underscore; here they end in a prime.\<close>

record 'a props =
  components :: "'a list"
  currentStep :: number
  transitionDuration :: "number option"
  style :: "css option"
  containerStyle :: "css option"
  animationType :: "string option"

definition style' :: "'a props \<Rightarrow> css" where
  "style' p = (case style p of None \<Rightarrow> [] | Some s \<Rightarrow> s)"

definition containerStyle' :: "'a props \<Rightarrow> css" where
  "containerStyle' p = (case containerStyle p of None \<Rightarrow> [] | Some s \<Rightarrow> s)"

definition animationType' :: "'a props \<Rightarrow> string" where
  "animationType' p =
     (case animationType p of
        None \<Rightarrow> ''ease-in-out''
      | Some a \<Rightarrow> if a = [] then ''ease-in-out'' else a)"

definition transitionDuration' :: "'a props \<Rightarrow> number" where
  "transitionDuration' p =
     halve (case transitionDuration p of
              None \<Rightarrow> Fin 1000
            | Some d \<Rightarrow> if ToBoolean d then d else Fin 1000)"

section \<open>The rendered tree (lines 70 to 96)\<close>

record 'a item_div =
  key :: nat
  item_style :: css
  child :: 'a

record 'a container_div =
  container_style :: css
  children :: "'a item_div list"

text \<open>\<open>Array.prototype.filter\<close> and \<open>map\<close> with the index argument.\<close>

definition filter_idx :: "('a \<Rightarrow> nat \<Rightarrow> bool) \<Rightarrow> 'a list \<Rightarrow> 'a list" where
  "filter_idx f xs = map fst (filter (\<lambda>(x, i). f x i) (zip xs [0..<length xs]))"

definition map_idx :: "('a \<Rightarrow> nat \<Rightarrow> 'b) \<Rightarrow> 'a list \<Rightarrow> 'b list" where
  "map_idx f xs = map (\<lambda>(x, i). f x i) (zip xs [0..<length xs])"

text \<open>
  The two template literals. The conversion of a number to its decimal text is the
  language's own and is a parameter \<open>toString\<close> of the rendering.
\<close>

definition height_transition :: "(number \<Rightarrow> string) \<Rightarrow> 'a props \<Rightarrow> string" where
  "height_transition toString p =
     ''height '' @ toString (transitionDuration' p) @ ''s '' @ animationType' p"

definition opacity_transition :: "(number \<Rightarrow> string) \<Rightarrow> 'a props \<Rightarrow> string" where
  "opacity_transition toString p =
     ''opacity '' @ toString (transitionDuration' p) @ ''ms '' @ animationType' p"

text \<open>The component's own properties, written before the caller's record is spread.\<close>

definition container_defaults :: "(number \<Rightarrow> string) \<Rightarrow> 'a props \<Rightarrow> css" where
  "container_defaults toString p =
     set_prop ''transition'' (CssStr (height_transition toString p)) []"

definition item_defaults :: "(number \<Rightarrow> string) \<Rightarrow> 'a props \<Rightarrow> number \<Rightarrow> css" where
  "item_defaults toString p opacity_now =
     set_prop ''width'' (CssStr ''100%'')
       (set_prop ''transition'' (CssStr (opacity_transition toString p))
         (set_prop ''display'' (CssStr ''flex'')
           (set_prop ''opacity'' (CssNum opacity_now) [])))"

definition render ::
  "(number \<Rightarrow> string) \<Rightarrow> 'a props \<Rightarrow> number \<Rightarrow> number \<Rightarrow> 'a container_div" where
  "render toString p delayed opacity_now =
     \<lparr> container_style = spread (container_defaults toString p) (containerStyle' p),
       children =
         map_idx
           (\<lambda>element index.
              \<lparr> key = index,
                item_style = spread (item_defaults toString p opacity_now) (style' p),
                child = element \<rparr>)
           (filter_idx (\<lambda>_ index. strict_eq (Fin (of_nat index)) delayed) (components p)) \<rparr>"

section \<open>Hook state, effect and timers (lines 48 to 68)\<close>

text \<open>
  One mounted component: the props of the last render, the two state cells, the
  dependencies the effect last ran with (none before the first render), the pending
  timers in the order they were set (due time in milliseconds, and the \<open>step\<close> the
  suspended call of \<open>queueDelayedStep\<close> holds), the clock, and the log of the
  (displayed step, opacity) pairs each render has shown.
\<close>

record 'a view =
  props :: "'a props"
  delayedStep :: number
  opacity :: number
  lastDeps :: "(number \<times> number \<times> number) option"
  timers :: "(rat \<times> number) list"
  now :: rat
  frames :: "(number \<times> number) list"

definition setDelayedStep :: "number \<Rightarrow> 'a view \<Rightarrow> 'a view" where
  "setDelayedStep v s = s\<lparr>delayedStep := v\<rparr>"

definition setOpacity :: "number \<Rightarrow> 'a view \<Rightarrow> 'a view" where
  "setOpacity v s = s\<lparr>opacity := v\<rparr>"

text \<open>
  The platform timer behind \<open>delay\<close>: the callback is due the requested number of
  milliseconds after the call, and a request that is negative or not finite counts as 0.
\<close>

fun timeout_ms :: "number \<Rightarrow> rat" where
  "timeout_ms (Fin r) = max 0 r"
| "timeout_ms x = 0"

text \<open>
  \<open>queueDelayedStep\<close> up to its \<open>await\<close>: the part that runs inside the effect. The
  callback is memoised on \<open>[delayedStep, transitionDuration']\<close>, so the one the effect
  calls reads the values of the render it belongs to.
\<close>

definition queueDelayedStep :: "'a view \<Rightarrow> number \<Rightarrow> 'a view" where
  "queueDelayedStep s step =
     (if strict_eq step (delayedStep s) then s
      else let s1 = setOpacity (Fin 0) s
           in s1\<lparr>timers := timers s1 @ [(now s1 + timeout_ms (transitionDuration' (props s1)), step)]\<rparr>)"

text \<open>
  The rest of \<open>queueDelayedStep\<close>, run when its timer fires (lines 62 and 63): two state
  writes, one after the other.
\<close>

definition resume :: "number \<Rightarrow> 'a view \<Rightarrow> 'a view" where
  "resume step s = setOpacity (Fin 1) (setDelayedStep step s)"

text \<open>
  \<open>useEffect\<close> with dependencies \<open>[currentStep, queueDelayedStep]\<close>. The callback changes
  identity exactly when one of its own dependencies changes between two renders, so the
  effect's dependencies are the triple below.
\<close>

definition effect_deps :: "'a view \<Rightarrow> number \<times> number \<times> number" where
  "effect_deps s = (currentStep (props s), delayedStep s, transitionDuration' (props s))"

definition useEffect :: "'a view \<Rightarrow> 'a view" where
  "useEffect s =
     (if lastDeps s = Some (effect_deps s) then s
      else queueDelayedStep (s\<lparr>lastDeps := Some (effect_deps s)\<rparr>) (currentStep (props s)))"

definition paint :: "'a view \<Rightarrow> 'a view" where
  "paint s = s\<lparr>frames := frames s @ [(delayedStep s, opacity s)]\<rparr>"

definition cells :: "'a view \<Rightarrow> number \<times> number" where
  "cells s = (delayedStep s, opacity s)"

text \<open>
  One render with its effect, and the second render that follows when the effect has
  changed a state cell.
\<close>

definition render_cycle :: "'a view \<Rightarrow> 'a view" where
  "render_cycle s =
     (let s1 = useEffect (paint s)
      in if cells s1 = cells s then s1 else useEffect (paint s1))"

definition init :: "'a props \<Rightarrow> rat \<Rightarrow> 'a view" where
  "init p t =
     \<lparr> props = p, delayedStep = ToInt32 (currentStep p), opacity = Fin 1,
       lastDeps = None, timers = [], now = t, frames = [] \<rparr>"

definition mount :: "'a props \<Rightarrow> rat \<Rightarrow> 'a view" where
  "mount p t = render_cycle (init p t)"

definition update :: "'a props \<Rightarrow> 'a view \<Rightarrow> 'a view" where
  "update p s = render_cycle (s\<lparr>props := p\<rparr>)"

text \<open>The timer that fires next: the earliest due time, the older one among equals.\<close>

fun next_due :: "(rat \<times> number) list \<Rightarrow> (rat \<times> number) option" where
  "next_due [] = None"
| "next_due (x # xs) =
     (case next_due xs of
        None \<Rightarrow> Some x
      | Some y \<Rightarrow> if fst y < fst x then Some y else Some x)"

text \<open>
  The two writes of \<open>resume\<close> are made after an \<open>await\<close>, outside any handler of React.
  How they reach the screen depends on the root the component is mounted in, which is not
  part of the source, so the model takes it as a parameter \<open>batched\<close>.

  With batching (a root of React 18) the writes of one task are applied together: one
  render follows, unless neither cell has changed.
\<close>

definition commit_batched :: "number \<Rightarrow> 'a view \<Rightarrow> 'a view" where
  "commit_batched step s =
     (let s1 = resume step s
      in if cells s1 = cells s then s1 else render_cycle s1)"

text \<open>
  Without batching (a legacy root, React 17 and before) a write that changes its cell is
  rendered at once, and a write of the value the cell already has is dropped. The render
  of the first write shows the new step with the opacity as it was. Its effect is still
  pending when the second write is made, and runs before that write is rendered (or, where
  the second write is dropped, right after it): an opacity of 0 written by the effect is
  queued behind the 1 and is the value the next render shows.
\<close>

definition commit_unbatched :: "number \<Rightarrow> 'a view \<Rightarrow> 'a view" where
  "commit_unbatched step s =
     (if delayedStep s = step
      then (if opacity s = Fin 1 then s else render_cycle (setOpacity (Fin 1) s))
      else let s1 = paint (setDelayedStep step s);
               s2 = useEffect (setOpacity (Fin 1) s1)
           in if opacity s = Fin 1 \<and> opacity s2 = Fin 1 then s2 else useEffect (paint s2))"

definition fire_next :: "bool \<Rightarrow> 'a view \<Rightarrow> 'a view option" where
  "fire_next batched s =
     (case next_due (timers s) of
        None \<Rightarrow> None
      | Some tm \<Rightarrow>
          let s0 = s\<lparr>timers := remove1 tm (timers s), now := max (now s) (fst tm)\<rparr>
          in Some (if batched then commit_batched (snd tm) s0
                   else commit_unbatched (snd tm) s0))"

text \<open>
  Letting the clock run to time \<open>t\<close>: every timer due by then fires, in order. The
  fuel bounds the number of firings; \<open>None\<close> means it ran out.
\<close>

fun run_until :: "bool \<Rightarrow> nat \<Rightarrow> rat \<Rightarrow> 'a view \<Rightarrow> 'a view option" where
  "run_until batched n t s =
     (case next_due (timers s) of
        None \<Rightarrow> Some (s\<lparr>now := max (now s) t\<rparr>)
      | Some tm \<Rightarrow>
          if t < fst tm then Some (s\<lparr>now := max (now s) t\<rparr>)
          else (case n of
                  0 \<Rightarrow> None
                | Suc k \<Rightarrow>
                    (case fire_next batched s of
                       None \<Rightarrow> None
                     | Some s' \<Rightarrow> run_until batched k t s')))"

section \<open>Notions the properties are stated with\<close>


text \<open>
  The position a step value denotes in a list, when it denotes one: a whole number that
  is not negative (negative zero is zero).
\<close>

fun as_index :: "number \<Rightarrow> nat option" where
  "as_index (Fin r) = (if 0 \<le> r \<and> r = of_int \<lfloor>r\<rfloor> then Some (nat \<lfloor>r\<rfloor>) else None)"
| "as_index NegZero = Some 0"
| "as_index NaN = None"
| "as_index PosInf = None"
| "as_index NegInf = None"

text \<open>
  The state \<open>Idle\<close> of the specification: fully visible, no commit pending, and the
  effect has run for the props and state at hand and found the requested step displayed.
\<close>

definition idle :: "'a view \<Rightarrow> bool" where
  "idle s =
     (opacity s = Fin 1 \<and> timers s = [] \<and> lastDeps s = Some (effect_deps s) \<and>
      strict_eq (currentStep (props s)) (delayedStep s))"

text \<open>The duration the caller asks for, with 1000 where the prop is left out.\<close>

definition requested_duration :: "'a props \<Rightarrow> number" where
  "requested_duration p = (case transitionDuration p of None \<Rightarrow> Fin 1000 | Some d \<Rightarrow> d)"

text \<open>The timing function the caller asks for, with ease-in-out where it is left out.\<close>

definition requested_timing :: "'a props \<Rightarrow> string" where
  "requested_timing p = (case animationType p of None \<Rightarrow> ''ease-in-out'' | Some a \<Rightarrow> a)"

text \<open>
  What the caller's style record, if there is one, holds at a key; and that the record, if
  there is one, has each key once.
\<close>

fun caller_prop :: "css option \<Rightarrow> string \<Rightarrow> css_value option" where
  "caller_prop None k = None"
| "caller_prop (Some obj) k = get_prop obj k"

fun caller_well_formed :: "css option \<Rightarrow> bool" where
  "caller_well_formed None = True"
| "caller_well_formed (Some obj) = well_formed obj"

text \<open>
  The props of the specification's scenarios: the items A, B and C, a step, and an
  optional duration; no style records and no timing function.
\<close>

definition scenario :: "number \<Rightarrow> number option \<Rightarrow> string props" where
  "scenario step duration =
     \<lparr> components = [''A'', ''B'', ''C''], currentStep = step, transitionDuration = duration,
       style = None, containerStyle = None, animationType = None \<rparr>"

text \<open>The same with both style records and a timing function supplied by the caller.\<close>

definition styled_scenario :: "number \<Rightarrow> number option \<Rightarrow> string props" where
  "styled_scenario step duration =
     \<lparr> components = [''A'', ''B'', ''C''], currentStep = step, transitionDuration = duration,
       style = Some [(''opacity'', CssNum (Fin (1 / 2))), (''color'', CssStr ''red'')],
       containerStyle = Some [(''height'', CssStr ''40px'')],
       animationType = Some ''linear'' \<rparr>"

text \<open>The same again, with a container record that sets \<open>transition\<close> itself.\<close>

definition overriding_scenario :: "number \<Rightarrow> number option \<Rightarrow> string props" where
  "overriding_scenario step duration =
     \<lparr> components = [''A'', ''B'', ''C''], currentStep = step, transitionDuration = duration,
       style = Some [(''opacity'', CssNum (Fin (1 / 2))), (''color'', CssStr ''red'')],
       containerStyle = Some [(''transition'', CssStr ''none''), (''height'', CssStr ''40px'')],
       animationType = Some ''linear'' \<rparr>"

text \<open>
  Scenario C of the specification, with the default duration: mounted at step 0 at time
  0, step 1 requested at time 0, step 0 requested again at time 100.
\<close>

definition scenario_c_requested :: "string view" where
  "scenario_c_requested = update (scenario (Fin 1) None) (mount (scenario (Fin 0) None) 0)"

definition scenario_c_set_back :: "string view" where
  "scenario_c_set_back = update (scenario (Fin 0) None) (scenario_c_requested\<lparr>now := 100\<rparr>)"

text \<open>
  A sample conversion of numbers to text for the concrete instances below: the decimal
  digits of the whole part, which is the language's text for whole numbers that are not
  negative.
\<close>

fun digits :: "nat \<Rightarrow> string" where
  "digits n =
     (if n < 10 then [char_of (48 + n)] else digits (n div 10) @ [char_of (48 + n mod 10)])"

fun whole_part_text :: "number \<Rightarrow> string" where
  "whole_part_text (Fin r) = digits (nat \<lfloor>r\<rfloor>)"
| "whole_part_text x = ''0''"

section \<open>Style records\<close>

lemma map_of_set_prop: "map_of (set_prop k v ps) x = (if x = k then Some v else map_of ps x)"
  by (induction ps) auto

lemma map_of_spread:
  "distinct (map fst src) \<Longrightarrow>
   map_of (spread t src) x = (case map_of src x of Some v \<Rightarrow> Some v | None \<Rightarrow> map_of t x)"
proof (induction src arbitrary: t)
  case Nil
  then show ?case by simp
next
  case (Cons kv src)
  obtain k v where kv: "kv = (k, v)" by (cases kv)
  from Cons.prems kv have fresh: "map_of src k = None" and d: "distinct (map fst src)"
    by (auto simp: map_of_eq_None_iff)
  show ?case
    using Cons.IH [OF d, of "set_prop k v t"] fresh kv
    by (simp add: map_of_set_prop split: option.splits)
qed

lemma get_prop_spread:
  "well_formed src \<Longrightarrow>
   get_prop (spread t src) k = (case get_prop src k of Some v \<Rightarrow> Some v | None \<Rightarrow> get_prop t k)"
  by (simp add: get_prop_def well_formed_def map_of_spread split: option.splits)

lemma get_prop_spread_absent:
  "get_prop src k = None \<Longrightarrow> get_prop (spread t src) k = get_prop t k"
proof (induction src arbitrary: t)
  case Nil
  then show ?case by simp
next
  case (Cons kv src)
  then show ?case
    by (cases kv) (auto simp: get_prop_def map_of_set_prop split: if_splits)
qed

section \<open>Which items are rendered\<close>

lemma filter_index_eq:
  "filter (\<lambda>(x, i). i = k) (zip xs [0..<length xs]) = (if k < length xs then [(xs ! k, k)] else [])"
proof (induction xs rule: rev_induct)
  case Nil
  then show ?case by simp
next
  case (snoc x xs)
  then show ?case by (auto simp: nth_append less_Suc_eq)
qed

lemma strict_eq_index:
  "strict_eq (Fin (of_nat i)) d = (as_index d = Some i)"
proof (cases d)
  case (Fin r)
  show ?thesis
  proof
    assume "strict_eq (Fin (of_nat i)) d"
    with Fin have "r = of_nat i" by (simp add: strict_eq_def)
    with Fin show "as_index d = Some i" by simp
  next
    assume "as_index d = Some i"
    with Fin have "0 \<le> r" and r: "r = of_int \<lfloor>r\<rfloor>" and i: "i = nat \<lfloor>r\<rfloor>"
      by (auto split: if_splits)
    from \<open>0 \<le> r\<close> have "0 \<le> \<lfloor>r\<rfloor>" by simp
    with i have "(of_nat i :: rat) = of_int \<lfloor>r\<rfloor>" by simp
    with r Fin show "strict_eq (Fin (of_nat i)) d" by (simp add: strict_eq_def)
  qed
qed (auto simp: strict_eq_def)

lemma filter_idx_step:
  "filter_idx (\<lambda>_ index. strict_eq (Fin (of_nat index)) d) xs =
     (case as_index d of
        None \<Rightarrow> []
      | Some i \<Rightarrow> if i < length xs then [xs ! i] else [])"
proof (cases "as_index d")
  case None
  then show ?thesis
    by (simp add: filter_idx_def strict_eq_index)
next
  case (Some k)
  have "(\<lambda>(x :: 'a, i). Some k = Some i) = (\<lambda>(x, i). i = k)"
    by auto
  with Some show ?thesis
    by (simp add: filter_idx_def strict_eq_index filter_index_eq)
qed

lemma children_render:
  "children (render toString p d v) =
     (case as_index d of
        None \<Rightarrow> []
      | Some i \<Rightarrow>
          if i < length (components p)
          then [\<lparr> key = 0, item_style = spread (item_defaults toString p v) (style' p),
                  child = components p ! i \<rparr>]
          else [])"
  by (simp add: render_def filter_idx_step map_idx_def split: option.splits)

text \<open>
  C4. Whatever the item list and the displayed step, the rendered container holds the item
  at the position the displayed step denotes when that position exists in the list, and
  no item otherwise (an empty list, a negative, fractional, too large or non-finite
  step); it never holds more than one item.
\<close>

theorem one_item_or_none:
  "map child (children (render toString p d v)) =
     (case as_index d of
        None \<Rightarrow> []
      | Some i \<Rightarrow> if i < length (components p) then [components p ! i] else []) \<and>
   length (children (render toString p d v)) \<le> 1"
  by (simp add: children_render split: option.splits)

section \<open>The step transition\<close>

lemmas cycle_defs =
  render_cycle_def useEffect_def paint_def queueDelayedStep_def cells_def effect_deps_def
  setOpacity_def setDelayedStep_def resume_def commit_batched_def commit_unbatched_def

lemma strict_eq_refl: "strict_eq a a = (a \<noteq> NaN)"
  by (simp add: strict_eq_def)

lemma strict_eq_trans: "strict_eq a b \<Longrightarrow> strict_eq b c \<Longrightarrow> strict_eq a c"
  by (simp add: strict_eq_def)

lemma strict_eq_sym: "strict_eq a b = strict_eq b a"
  by (auto simp: strict_eq_def)

lemma strict_eq_neq: "\<not> strict_eq a b \<Longrightarrow> a \<noteq> NaN \<Longrightarrow> a \<noteq> b"
  by (auto simp: strict_eq_def)

lemma render_cycle_equal:
  assumes "strict_eq (currentStep (props s)) (delayedStep s)"
  shows "render_cycle s =
     s\<lparr>lastDeps := Some (effect_deps s), frames := frames s @ [(delayedStep s, opacity s)]\<rparr>"
  using assms by (simp add: cycle_defs)

lemma render_cycle_differs:
  assumes "\<not> strict_eq (currentStep (props s)) (delayedStep s)"
      and "lastDeps s \<noteq> Some (effect_deps s)"
  shows "render_cycle s =
     s\<lparr>opacity := Fin 0, lastDeps := Some (effect_deps s),
       timers := timers s @ [(now s + timeout_ms (transitionDuration' (props s)), currentStep (props s))],
       frames := frames s @ (delayedStep s, opacity s) #
                   (if opacity s = Fin 0 then [] else [(delayedStep s, Fin 0)])\<rparr>"
  using assms by (simp add: cycle_defs Let_def)

lemma fire_next_single:
  assumes "timers s = [(due, step)]"
  shows "fire_next batched s =
     Some (if batched then commit_batched step (s\<lparr>timers := [], now := max (now s) due\<rparr>)
           else commit_unbatched step (s\<lparr>timers := [], now := max (now s) due\<rparr>))"
  using assms by (simp add: fire_next_def Let_def)

declare run_until.simps [simp del]

lemma run_until_quiet:
  "timers s = [] \<Longrightarrow> run_until batched n t s = Some (s\<lparr>now := max (now s) t\<rparr>)"
  by (simp add: run_until.simps)

lemma run_until_wait:
  "next_due (timers s) = Some tm \<Longrightarrow> t < fst tm \<Longrightarrow>
   run_until batched n t s = Some (s\<lparr>now := max (now s) t\<rparr>)"
  by (simp add: run_until.simps)

lemma run_until_fire:
  "next_due (timers s) = Some tm \<Longrightarrow> fst tm \<le> t \<Longrightarrow> fire_next batched s = Some s' \<Longrightarrow>
   run_until batched (Suc n) t s = run_until batched n t s'"
  by (simp add: run_until.simps [of batched "Suc n"])

lemma half_duration:
  "requested_duration p = Fin D \<Longrightarrow> D \<noteq> 0 \<Longrightarrow> transitionDuration' p = Fin (D / 2)"
  by (auto simp: requested_duration_def transitionDuration'_def split: option.splits)

lemma update_request:
  assumes "\<not> strict_eq (currentStep p) (delayedStep s)"
      and "lastDeps s \<noteq> Some (currentStep p, delayedStep s, transitionDuration' p)"
  shows "update p s =
     s\<lparr>props := p, opacity := Fin 0,
       lastDeps := Some (currentStep p, delayedStep s, transitionDuration' p),
       timers := timers s @ [(now s + timeout_ms (transitionDuration' p), currentStep p)],
       frames := frames s @ (delayedStep s, opacity s) #
                   (if opacity s = Fin 0 then [] else [(delayedStep s, Fin 0)])\<rparr>"
  using assms by (simp add: update_def render_cycle_differs effect_deps_def)

lemma update_equal:
  assumes "strict_eq (currentStep p) (delayedStep s)"
  shows "update p s =
     s\<lparr>props := p, lastDeps := Some (currentStep p, delayedStep s, transitionDuration' p),
       frames := frames s @ [(delayedStep s, opacity s)]\<rparr>"
  using assms by (simp add: update_def render_cycle_equal effect_deps_def)

text \<open>
  A commit of the step the props ask for: both ways of rendering end in the same state,
  and differ in the renders shown on the way.
\<close>

lemma commit_requested:
  assumes "timers s = [(due, step)]" and "step = currentStep (props s)" and "step \<noteq> NaN"
      and "opacity s = Fin 0" and "now s \<le> due" and "delayedStep s \<noteq> step"
      and "lastDeps s = Some (step, delayedStep s, transitionDuration' (props s))"
  shows "fire_next batched s =
     Some (s\<lparr>delayedStep := step, opacity := Fin 1, timers := [], now := due,
             lastDeps := Some (step, step, transitionDuration' (props s)),
             frames := frames s @
               (if batched then [(step, Fin 1)] else [(step, Fin 0), (step, Fin 1)])\<rparr>)"
  using assms
  by (simp add: fire_next_single Let_def cycle_defs strict_eq_refl max_def)

text \<open>
  A commit of a step the props no longer ask for (or of NaN): the effect runs again and
  starts the next fade, and both ways of rendering end with the opacity at 0.
\<close>

lemma commit_then_refade:
  assumes "timers s = [(due, step)]"
      and "\<not> strict_eq (currentStep (props s)) step"
      and "opacity s = Fin 0" and "now s \<le> due" and "delayedStep s \<noteq> step"
      and "lastDeps s \<noteq> Some (currentStep (props s), step, transitionDuration' (props s))"
  shows "fire_next batched s =
     Some (s\<lparr>delayedStep := step, opacity := Fin 0,
             timers := [(due + timeout_ms (transitionDuration' (props s)), currentStep (props s))],
             now := due,
             lastDeps := Some (currentStep (props s), step, transitionDuration' (props s)),
             frames := frames s @
               (if batched then [(step, Fin 1), (step, Fin 0)]
                else [(step, Fin 0), (step, Fin 0)])\<rparr>)"
  using assms
  by (simp add: fire_next_single Let_def cycle_defs max_def)

text \<open>
  C1, as stated, fails in two places. Where the root does not batch, the commit is seen
  in two renders: in Scenario A the render after the timer shows step 2 at opacity 0, and
  only the next one shows it at 1. And a requested step of NaN differs from every
  displayed step, but once it is committed the effect finds it different from itself and
  starts the next fade: when the half duration has passed the opacity is 0, not 1, with
  or without batching.
\<close>

theorem fade_out_then_commit_counterexample:
  "map_option frames
     (run_until False (Suc 0) 500 (update (scenario (Fin 2) None) (mount (scenario (Fin 0) None) 0))) =
     Some [(Fin 0, Fin 1), (Fin 0, Fin 1), (Fin 0, Fin 0), (Fin 2, Fin 0), (Fin 2, Fin 1)] \<and>
   \<not> strict_eq NaN (delayedStep (mount (scenario (Fin 0) None) 0)) \<and>
   map_option cells
     (run_until True (Suc 0) 500 (update (scenario NaN None) (mount (scenario (Fin 0) None) 0))) =
     Some (NaN, Fin 0) \<and>
   map_option cells
     (run_until False (Suc 0) 500 (update (scenario NaN None) (mount (scenario (Fin 0) None) 0))) =
     Some (NaN, Fin 0)"
  by code_simp

text \<open>
  C1, amended. In the idle state, a request for a step that differs from the displayed one
  and is not NaN, with a positive duration \<open>D\<close>: the update sets the opacity to 0 at once,
  keeps the displayed step and sets one timer, due \<open>D / 2\<close> milliseconds later. Until
  then nothing changes. When the clock reaches that time the displayed step is set to the
  requested one and the opacity to 1, and the component is idle again. With batching the
  two writes are seen together: the renders from the request on show the old step at 1,
  the old step at 0 and the new step at 1. Without batching one more render comes
  between the last two and shows the new step at 0. In neither case is the old step shown
  at any other opacity.
\<close>

theorem fade_out_then_commit:
  assumes "idle s"
      and "\<not> strict_eq (currentStep p) (delayedStep s)"
      and "currentStep p \<noteq> NaN"
      and "requested_duration p = Fin D" and "0 < D"
      and "now s \<le> t" and "t < now s + D / 2"
  shows "opacity (update p s) = Fin 0 \<and>
         delayedStep (update p s) = delayedStep s \<and>
         timers (update p s) = [(now s + D / 2, currentStep p)] \<and>
         frames (update p s) = frames s @ [(delayedStep s, Fin 1), (delayedStep s, Fin 0)] \<and>
         run_until batched n t (update p s) = Some ((update p s)\<lparr>now := t\<rparr>) \<and>
         run_until batched (Suc n) (now s + D / 2) (update p s) =
           Some ((update p s)
                   \<lparr>delayedStep := currentStep p, opacity := Fin 1, timers := [],
                    now := now s + D / 2,
                    lastDeps := Some (currentStep p, currentStep p, transitionDuration' p),
                    frames := frames (update p s) @
                      (if batched then [(currentStep p, Fin 1)]
                       else [(currentStep p, Fin 0), (currentStep p, Fin 1)])\<rparr>) \<and>
         map_option idle (run_until batched (Suc n) (now s + D / 2) (update p s)) = Some True"
proof -
  from assms(4,5) have td: "transitionDuration' p = Fin (D / 2)"
    by (simp add: half_duration)
  from assms(1) have vis: "opacity s = Fin 1" and none: "timers s = []"
    and deps: "lastDeps s = Some (effect_deps s)"
    and shown: "strict_eq (currentStep (props s)) (delayedStep s)"
    by (simp_all add: idle_def)
  from shown assms(2) have "currentStep p \<noteq> currentStep (props s)"
    by auto
  with deps have new: "lastDeps s \<noteq> Some (currentStep p, delayedStep s, transitionDuration' p)"
    by (simp add: effect_deps_def)
  from assms(2,3) have other: "delayedStep s \<noteq> currentStep p"
    by (auto simp: strict_eq_def)
  define s1 where "s1 = update p s"
  have s1: "s1 =
     s\<lparr>props := p, opacity := Fin 0,
       lastDeps := Some (currentStep p, delayedStep s, transitionDuration' p),
       timers := [(now s + D / 2, currentStep p)],
       frames := frames s @ [(delayedStep s, Fin 1), (delayedStep s, Fin 0)]\<rparr>"
    unfolding s1_def using update_request [OF assms(2) new] vis none td assms(5)
    by simp
  have due: "next_due (timers s1) = Some (now s + D / 2, currentStep p)"
    by (simp add: s1)
  have before: "run_until batched n t s1 = Some (s1\<lparr>now := t\<rparr>)"
    using run_until_wait [OF due, of t batched n] assms(6,7) by (simp add: s1 max_def)
  have fire: "fire_next batched s1 =
     Some (s1\<lparr>delayedStep := currentStep p, opacity := Fin 1, timers := [],
              now := now s + D / 2,
              lastDeps := Some (currentStep p, currentStep p, transitionDuration' p),
              frames := frames s1 @
                (if batched then [(currentStep p, Fin 1)]
                 else [(currentStep p, Fin 0), (currentStep p, Fin 1)])\<rparr>)"
    using assms(3,5) other
    by (subst commit_requested [where due = "now s + D / 2" and step = "currentStep p"])
       (simp_all add: s1)
  have after: "run_until batched (Suc n) (now s + D / 2) s1 =
     Some (s1\<lparr>delayedStep := currentStep p, opacity := Fin 1, timers := [],
              now := now s + D / 2,
              lastDeps := Some (currentStep p, currentStep p, transitionDuration' p),
              frames := frames s1 @
                (if batched then [(currentStep p, Fin 1)]
                 else [(currentStep p, Fin 0), (currentStep p, Fin 1)])\<rparr>)"
    using run_until_fire [OF due _ fire, of "now s + D / 2" n]
    by (simp add: run_until_quiet)
  show ?thesis
    using before after assms(3) unfolding s1_def [symmetric]
    by (simp add: s1 idle_def effect_deps_def strict_eq_refl)
qed

theorem fade_out_then_commit_witness:
  "idle (mount (scenario (Fin 0) None) 0) \<and>
   \<not> strict_eq (currentStep (scenario (Fin 2) None)) (delayedStep (mount (scenario (Fin 0) None) 0)) \<and>
   requested_duration (scenario (Fin 2) None) = Fin 1000 \<and>
   map_option cells
     (run_until True 0 499 (update (scenario (Fin 2) None) (mount (scenario (Fin 0) None) 0)))
     = Some (Fin 0, Fin 0) \<and>
   map_option cells
     (run_until True (Suc 0) 500 (update (scenario (Fin 2) None) (mount (scenario (Fin 0) None) 0)))
     = Some (Fin 2, Fin 1) \<and>
   map_option (drop 3 \<circ> frames)
     (run_until True (Suc 0) 500 (update (scenario (Fin 2) None) (mount (scenario (Fin 0) None) 0)))
     = Some [(Fin 2, Fin 1)] \<and>
   map_option cells
     (run_until False (Suc 0) 500 (update (scenario (Fin 2) None) (mount (scenario (Fin 0) None) 0)))
     = Some (Fin 2, Fin 1) \<and>
   map_option (drop 3 \<circ> frames)
     (run_until False (Suc 0) 500 (update (scenario (Fin 2) None) (mount (scenario (Fin 0) None) 0)))
     = Some [(Fin 2, Fin 0), (Fin 2, Fin 1)]"
proof -
  let ?s = "mount (scenario (Fin 0) None) 0" and ?p = "scenario (Fin 2) None"
  have h1: "idle ?s" by code_simp
  have h2: "\<not> strict_eq (currentStep ?p) (delayedStep ?s)" by code_simp
  have h3: "currentStep ?p \<noteq> NaN" by (simp add: scenario_def)
  have h4: "requested_duration ?p = Fin 1000" by (simp add: requested_duration_def scenario_def)
  have h5: "now ?s = 0" by code_simp
  have h6: "delayedStep ?s = Fin 0" by code_simp
  have h7: "frames ?s = [(Fin 0, Fin 1)]" by code_simp
  show ?thesis
    using h1 h2 h4 h5 h6 h7
      fade_out_then_commit [OF h1 h2 h3 h4, of 499 True 0]
      fade_out_then_commit [OF h1 h2 h3 h4, of 499 False 0]
    by (simp add: cells_def) (simp add: scenario_def)
qed

text \<open>
  C3. A request for a step that is strictly equal to the displayed one changes nothing:
  \<open>queueDelayedStep\<close> returns at once, and the update leaves the displayed step, the
  opacity and the pending timers as they were.
\<close>

theorem equal_step_is_no_op:
  assumes "strict_eq (currentStep p) (delayedStep s)"
  shows "queueDelayedStep s (currentStep p) = s \<and>
         delayedStep (update p s) = delayedStep s \<and>
         opacity (update p s) = opacity s \<and>
         timers (update p s) = timers s"
  using assms by (simp add: update_equal) (simp add: queueDelayedStep_def)

theorem equal_step_is_no_op_witness:
  "strict_eq (currentStep (scenario (Fin 0) (Some (Fin 300)))) (delayedStep (mount (scenario (Fin 0) None) 0)) \<and>
   cells (update (scenario (Fin 0) (Some (Fin 300))) (mount (scenario (Fin 0) None) 0)) = (Fin 0, Fin 1) \<and>
   timers (update (scenario (Fin 0) (Some (Fin 300))) (mount (scenario (Fin 0) None) 0)) = []"
proof -
  let ?s = "mount (scenario (Fin 0) None) 0" and ?p = "scenario (Fin 0) (Some (Fin 300))"
  have h1: "strict_eq (currentStep ?p) (delayedStep ?s)" by code_simp
  have h2: "cells ?s = (Fin 0, Fin 1)" and h3: "timers ?s = []" by code_simp+
  show ?thesis
    using h1 h2 h3 equal_step_is_no_op [OF h1] by (simp add: cells_def)
qed

section \<open>Defaults and styles\<close>

text \<open>
  C7. With \<open>transitionDuration\<close> left out the duration is 1000, halved to 500: the
  timer is set to 500 milliseconds and the opacity transition is declared with 500 ms.
  With \<open>animationType\<close> left out the timing function is ease-in-out.
\<close>

theorem omitted_props_take_defaults:
  "(transitionDuration p = None \<longrightarrow>
      transitionDuration' p = halve (Fin 1000) \<and> transitionDuration' p = Fin 500 \<and>
      timeout_ms (transitionDuration' p) = 500 \<and>
      opacity_transition toString p = ''opacity '' @ toString (Fin 500) @ ''ms '' @ animationType' p) \<and>
   (animationType p = None \<longrightarrow> animationType' p = ''ease-in-out'')"
  by (simp add: transitionDuration'_def animationType'_def opacity_transition_def)

theorem omitted_props_take_defaults_witness:
  "transitionDuration (scenario (Fin 0) None) = None \<and>
   animationType (scenario (Fin 0) None) = None \<and>
   transitionDuration' (scenario (Fin 0) None) = Fin 500 \<and>
   opacity_transition whole_part_text (scenario (Fin 0) None) = ''opacity 500ms ease-in-out''"
  using omitted_props_take_defaults [of "scenario (Fin 0) None" whole_part_text]
  by (simp add: scenario_def) code_simp

lemma style_of_caller:
  "get_prop (style' p) k = caller_prop (style p) k"
  "caller_well_formed (style p) \<Longrightarrow> well_formed (style' p)"
  by (cases "style p"; simp add: style'_def get_prop_def well_formed_def)+

lemma containerStyle_of_caller:
  "get_prop (containerStyle' p) k = caller_prop (containerStyle p) k"
  "caller_well_formed (containerStyle p) \<Longrightarrow> well_formed (containerStyle' p)"
  by (cases "containerStyle p"; simp add: containerStyle'_def get_prop_def well_formed_def)+

text \<open>
  C8. For style records of the caller that have each key once, the style of the rendered
  container and the style of every rendered item wrapper are the component's own
  properties with the caller's record merged over them: at each key the value of the
  caller's \<open>containerStyle\<close> (for the wrapper: of the caller's \<open>style\<close>) if that record has
  the key, and the component's own value otherwise. Each of the two depends on its own
  record only.
\<close>

theorem caller_styles_win:
  assumes "caller_well_formed (containerStyle p)" and "caller_well_formed (style p)"
  shows "get_prop (container_style (render toString p d v)) k =
           (case caller_prop (containerStyle p) k of
              Some x \<Rightarrow> Some x
            | None \<Rightarrow> get_prop (container_defaults toString p) k) \<and>
         (\<forall>it \<in> set (children (render toString p d v)).
            get_prop (item_style it) k =
              (case caller_prop (style p) k of
                 Some x \<Rightarrow> Some x
               | None \<Rightarrow> get_prop (item_defaults toString p v) k))"
proof -
  have "get_prop (container_style (render toString p d v)) k =
          (case caller_prop (containerStyle p) k of
             Some x \<Rightarrow> Some x
           | None \<Rightarrow> get_prop (container_defaults toString p) k)"
    using containerStyle_of_caller(2) [OF assms(1)]
    by (simp add: render_def get_prop_spread containerStyle_of_caller(1))
  moreover have "get_prop (item_style it) k =
          (case caller_prop (style p) k of
             Some x \<Rightarrow> Some x
           | None \<Rightarrow> get_prop (item_defaults toString p v) k)"
    if "it \<in> set (children (render toString p d v))" for it
  proof -
    from that have "item_style it = spread (item_defaults toString p v) (style' p)"
      by (auto simp: children_render split: option.splits if_splits)
    with style_of_caller(2) [OF assms(2)] show ?thesis
      by (simp add: get_prop_spread style_of_caller(1))
  qed
  ultimately show ?thesis by blast
qed

theorem caller_styles_win_witness:
  "caller_well_formed (containerStyle (overriding_scenario (Fin 0) None)) \<and>
   caller_well_formed (style (overriding_scenario (Fin 0) None)) \<and>
   get_prop (container_style (render whole_part_text (overriding_scenario (Fin 0) None) (Fin 0) (Fin 1)))
     ''transition'' = Some (CssStr ''none'') \<and>
   get_prop (container_style (render whole_part_text (overriding_scenario (Fin 0) None) (Fin 0) (Fin 1)))
     ''height'' = Some (CssStr ''40px'') \<and>
   get_prop (container_style (render whole_part_text (styled_scenario (Fin 0) None) (Fin 0) (Fin 1)))
     ''transition'' = Some (CssStr ''height 500s linear'') \<and>
   map (\<lambda>it. map (get_prop (item_style it)) [''opacity'', ''color'', ''display'', ''width''])
     (children (render whole_part_text (overriding_scenario (Fin 0) None) (Fin 0) (Fin 1))) =
     [[Some (CssNum (Fin (1 / 2))), Some (CssStr ''red''), Some (CssStr ''flex''),
       Some (CssStr ''100%'')]]"
proof -
  let ?p = "overriding_scenario (Fin 0) None" and ?q = "styled_scenario (Fin 0) None"
  let ?r = "render whole_part_text ?p (Fin 0) (Fin 1)"
  have h1: "caller_well_formed (containerStyle ?p)" and h2: "caller_well_formed (style ?p)"
    by code_simp+
  have g1: "caller_well_formed (containerStyle ?q)" and g2: "caller_well_formed (style ?q)"
    by code_simp+
  have own: "container_defaults whole_part_text ?q =
      [(''transition'', CssStr ''height 500s linear'')]"
    by code_simp
  have own_item: "item_defaults whole_part_text ?p (Fin 1) =
      [(''opacity'', CssNum (Fin 1)), (''display'', CssStr ''flex''),
       (''transition'', CssStr ''opacity 500ms linear''), (''width'', CssStr ''100%'')]"
    by code_simp
  obtain x where one: "children ?r = [x]"
    by (simp add: children_render overriding_scenario_def)
  have c1: "get_prop (container_style ?r) ''transition'' = Some (CssStr ''none'')"
    using caller_styles_win [OF h1 h2, of whole_part_text "Fin 0" "Fin 1" "''transition''"]
    by (simp add: overriding_scenario_def get_prop_def)
  have c2: "get_prop (container_style ?r) ''height'' = Some (CssStr ''40px'')"
    using caller_styles_win [OF h1 h2, of whole_part_text "Fin 0" "Fin 1" "''height''"]
    by (simp add: overriding_scenario_def get_prop_def)
  have c3: "get_prop (container_style (render whole_part_text ?q (Fin 0) (Fin 1))) ''transition'' =
      Some (CssStr ''height 500s linear'')"
  proof -
    have "caller_prop (containerStyle ?q) ''transition'' = None"
      by (simp add: styled_scenario_def get_prop_def)
    with caller_styles_win [OF g1 g2, of whole_part_text "Fin 0" "Fin 1" "''transition''"]
    show ?thesis by (simp add: own get_prop_def)
  qed
  have i: "get_prop (item_style x) k =
      (case caller_prop (style ?p) k of
         Some y \<Rightarrow> Some y
       | None \<Rightarrow> get_prop (item_defaults whole_part_text ?p (Fin 1)) k)" for k
    using caller_styles_win [OF h1 h2, of whole_part_text "Fin 0" "Fin 1" k] one
    by simp
  have held: "caller_prop (style ?p) ''opacity'' = Some (CssNum (Fin (1 / 2)))"
    "caller_prop (style ?p) ''color'' = Some (CssStr ''red'')"
    "caller_prop (style ?p) ''display'' = None"
    "caller_prop (style ?p) ''width'' = None"
    by (simp_all add: overriding_scenario_def get_prop_def)
  have "map (get_prop (item_style x)) [''opacity'', ''color'', ''display'', ''width''] =
      [Some (CssNum (Fin (1 / 2))), Some (CssStr ''red''), Some (CssStr ''flex''),
       Some (CssStr ''100%'')]"
    by (simp add: i held) (simp add: own_item get_prop_def)
  with one h1 h2 c1 c2 c3 show ?thesis by simp
qed

text \<open>
  C9, as stated, fails for three kinds of input. A caller's record that sets
  \<open>transition\<close> is merged over the component's declaration and wins: the container then
  carries the caller's text. An empty timing function is falsy and gives ease-in-out. A
  duration of 0 is falsy as well and gives the declaration for 500 (see C5).
\<close>

theorem transition_declarations_counterexample:
  "get_prop
     (container_style
        (render whole_part_text (overriding_scenario (Fin 0) (Some (Fin 600))) (Fin 0) (Fin 1)))
     ''transition'' = Some (CssStr ''none'') \<and>
   get_prop
     (container_style
        (render whole_part_text ((scenario (Fin 0) (Some (Fin 600)))\<lparr>animationType := Some []\<rparr>)
           (Fin 0) (Fin 1)))
     ''transition'' = Some (CssStr ''height 300s ease-in-out'') \<and>
   get_prop
     (container_style (render whole_part_text (scenario (Fin 0) (Some (Fin 0))) (Fin 0) (Fin 1)))
     ''transition'' = Some (CssStr ''height 500s ease-in-out'')"
  by code_simp

text \<open>
  C9, amended. For a requested duration \<open>D\<close> that is not zero or NaN and a requested
  timing function \<open>T\<close> that is not the empty string, and when the caller's style records
  do not set \<open>transition\<close> themselves: the container carries the declaration "height",
  \<open>D / 2\<close> printed and followed by "s", then \<open>T\<close>; every item wrapper carries "opacity",
  the same number followed by "ms", then \<open>T\<close>. The number is the same in both, the unit
  is not.
\<close>

theorem transition_declarations:
  assumes "requested_duration p = D" and "ToBoolean D"
      and "requested_timing p = T" and "T \<noteq> []"
      and "caller_prop (containerStyle p) ''transition'' = None"
      and "caller_prop (style p) ''transition'' = None"
  shows "get_prop (container_style (render toString p d v)) ''transition'' =
           Some (CssStr (''height '' @ toString (halve D) @ ''s '' @ T)) \<and>
         (\<forall>it \<in> set (children (render toString p d v)).
            get_prop (item_style it) ''transition'' =
              Some (CssStr (''opacity '' @ toString (halve D) @ ''ms '' @ T)))"
proof -
  from assms(1,2) have td: "transitionDuration' p = halve D"
    by (auto simp: transitionDuration'_def requested_duration_def split: option.splits)
  from assms(3,4) have at: "animationType' p = T"
    by (auto simp: animationType'_def requested_timing_def split: option.splits)
  from assms(5) have c: "get_prop (containerStyle' p) ''transition'' = None"
    by (simp add: containerStyle_of_caller(1))
  from assms(6) have i: "get_prop (style' p) ''transition'' = None"
    by (simp add: style_of_caller(1))
  have "get_prop (container_style (render toString p d v)) ''transition'' =
          Some (CssStr (''height '' @ toString (halve D) @ ''s '' @ T))"
    using c td at
    by (simp add: render_def get_prop_spread_absent container_defaults_def height_transition_def)
       (simp add: get_prop_def)
  moreover have "get_prop (item_style it) ''transition'' =
          Some (CssStr (''opacity '' @ toString (halve D) @ ''ms '' @ T))"
    if "it \<in> set (children (render toString p d v))" for it
  proof -
    from that have "item_style it = spread (item_defaults toString p v) (style' p)"
      by (auto simp: children_render split: option.splits if_splits)
    with i td at show ?thesis
      by (simp add: get_prop_spread_absent item_defaults_def opacity_transition_def)
         (simp add: get_prop_def)
  qed
  ultimately show ?thesis by blast
qed

theorem transition_declarations_witness:
  "requested_duration (styled_scenario (Fin 1) (Some (Fin 600))) = Fin 600 \<and>
   ToBoolean (Fin 600) \<and>
   requested_timing (styled_scenario (Fin 1) (Some (Fin 600))) = ''linear'' \<and>
   caller_prop (containerStyle (styled_scenario (Fin 1) (Some (Fin 600)))) ''transition'' = None \<and>
   caller_prop (style (styled_scenario (Fin 1) (Some (Fin 600)))) ''transition'' = None \<and>
   get_prop (container_style (render whole_part_text (styled_scenario (Fin 1) (Some (Fin 600))) (Fin 1) (Fin 1)))
     ''transition'' = Some (CssStr ''height 300s linear'') \<and>
   map (\<lambda>it. get_prop (item_style it) ''transition'')
     (children (render whole_part_text (styled_scenario (Fin 1) (Some (Fin 600))) (Fin 1) (Fin 1))) =
     [Some (CssStr ''opacity 300ms linear'')]"
proof -
  let ?p = "styled_scenario (Fin 1) (Some (Fin 600))"
  let ?r = "render whole_part_text ?p (Fin 1) (Fin 1)"
  have h1: "requested_duration ?p = Fin 600" and h3: "requested_timing ?p = ''linear''"
    by (simp_all add: styled_scenario_def requested_duration_def requested_timing_def)
  have h2: "ToBoolean (Fin 600)" and h4: "''linear'' \<noteq> []" by simp_all
  have h5: "caller_prop (containerStyle ?p) ''transition'' = None"
    and h6: "caller_prop (style ?p) ''transition'' = None"
    by (simp_all add: styled_scenario_def get_prop_def)
  have printed: "whole_part_text (halve (Fin 600)) = ''300''" by code_simp
  obtain x where one: "children ?r = [x]"
    by (simp add: children_render styled_scenario_def)
  from transition_declarations [OF h1 h2 h3 h4 h5 h6, of whole_part_text "Fin 1" "Fin 1"] printed
  have c: "get_prop (container_style ?r) ''transition'' = Some (CssStr ''height 300s linear'')"
    and i: "\<forall>it \<in> set (children ?r).
              get_prop (item_style it) ''transition'' = Some (CssStr ''opacity 300ms linear'')"
    by simp_all
  from i one have "map (\<lambda>it. get_prop (item_style it) ''transition'') (children ?r) =
      [Some (CssStr ''opacity 300ms linear'')]"
    by simp
  with h1 h2 h3 h5 h6 c show ?thesis by simp
qed

section \<open>The first render\<close>

lemma wrap32_id: "- (2 ^ 31) \<le> k \<Longrightarrow> k < 2 ^ 31 \<Longrightarrow> wrap32 k = k"
proof (cases "0 \<le> k")
  case True
  assume "k < 2 ^ 31"
  with True have "k mod 2 ^ 32 = k" by simp
  with \<open>k < 2 ^ 31\<close> show ?thesis by (simp add: wrap32_def)
next
  case False
  assume low: "- (2 ^ 31) \<le> k"
  have "k mod 2 ^ 32 = k + 2 ^ 32"
    using False low by (intro int_mod_pos_eq [where q = "- 1"]) simp_all
  with low show ?thesis by (simp add: wrap32_def)
qed

lemma delayedStep_render_cycle: "delayedStep (render_cycle s) = delayedStep s"
  by (simp add: cycle_defs Let_def)

lemma hd_frames_render_cycle:
  "frames s = [] \<Longrightarrow> hd (frames (render_cycle s)) = (delayedStep s, opacity s)"
  by (simp add: cycle_defs Let_def)

text \<open>
  C6, as stated, fails: the displayed step starts as \<open>currentStep | 0\<close>, which is the
  truncated value only inside the signed 32-bit range. For the step \<open>2^31\<close> the
  truncated value is \<open>2^31\<close> and the displayed step starts as \<open>- 2^31\<close>.
\<close>

theorem initial_state_counterexample:
  "delayedStep (init (scenario (Fin 2147483648) None) 0) \<noteq> Fin (of_int (trunc 2147483648))"
  by code_simp

text \<open>
  C6, amended. When the first \<open>currentStep\<close> is finite and its truncation towards zero
  lies in the signed 32-bit range, the displayed step starts as that truncated value and
  the opacity as 1; the first render shows this pair, and mounting does not change the
  displayed step.
\<close>

theorem initial_state:
  assumes "currentStep p = Fin r" and "- (2 ^ 31) \<le> trunc r" and "trunc r < 2 ^ 31"
  shows "delayedStep (init p t) = Fin (of_int (trunc r)) \<and>
         opacity (init p t) = Fin 1 \<and>
         delayedStep (mount p t) = Fin (of_int (trunc r)) \<and>
         hd (frames (mount p t)) = (Fin (of_int (trunc r)), Fin 1)"
  using assms
  by (simp add: mount_def delayedStep_render_cycle hd_frames_render_cycle init_def wrap32_id)

theorem initial_state_witness:
  "currentStep (scenario (Fin (- 5 / 2)) None) = Fin (- 5 / 2) \<and>
   - (2 ^ 31) \<le> trunc (- 5 / 2) \<and> trunc (- 5 / 2) < 2 ^ 31 \<and>
   delayedStep (mount (scenario (Fin (- 5 / 2)) None) 0) = Fin (- 2) \<and>
   hd (frames (mount (scenario (Fin (- 5 / 2)) None) 0)) = (Fin (- 2), Fin 1)"
proof -
  let ?p = "scenario (Fin (- 5 / 2)) None"
  have h1: "currentStep ?p = Fin (- 5 / 2)" by (simp add: scenario_def)
  have tr: "trunc (- 5 / 2) = - 2" by code_simp
  have h2: "- (2 ^ 31) \<le> trunc (- 5 / 2)" and h3: "trunc (- 5 / 2) < 2 ^ 31"
    using tr by simp_all
  show ?thesis
    using h1 h2 h3 tr initial_state [OF h1 h2 h3, of 0] by simp
qed

lemma trunc_of_int: "trunc (of_int k) = k"
  by (simp add: trunc_def)

lemma mount_whole_step_is_idle:
  assumes "currentStep p = Fin (of_int k)" and "- (2 ^ 31) \<le> k" and "k < 2 ^ 31"
  shows "idle (mount p t) \<and> delayedStep (mount p t) = Fin (of_int k) \<and>
         frames (mount p t) = [(Fin (of_int k), Fin 1)]"
proof -
  from assms have seed: "ToInt32 (currentStep p) = currentStep p"
    by (simp add: trunc_of_int wrap32_id)
  from assms(1) have "strict_eq (currentStep p) (currentStep p)"
    by (simp add: strict_eq_def)
  with seed have "mount p t =
     (init p t)\<lparr>lastDeps := Some (effect_deps (init p t)),
                 frames := [(currentStep p, Fin 1)]\<rparr>"
    by (simp add: mount_def init_def render_cycle_equal)
  with seed assms(1) show ?thesis
    by (simp add: idle_def effect_deps_def init_def strict_eq_def)
qed


section \<open>Zero and negative durations\<close>

text \<open>
  C5. The claim asks for an instant transition at a zero duration. The code reads
  \<open>transitionDuration || 1000\<close>, and \<open>0\<close> is falsy, so a zero duration gives the default:
  the half duration is 500, the commit of a request made at time 0 is due at 500, and at
  499 the old step is still displayed at opacity 0, with or without batching.
\<close>

theorem zero_duration_waits_500:
  "transitionDuration' (scenario (Fin 2) (Some (Fin 0))) = Fin 500 \<and>
   timers (update (scenario (Fin 2) (Some (Fin 0))) (mount (scenario (Fin 0) (Some (Fin 0))) 0))
     = [(500, Fin 2)] \<and>
   map_option cells
     (run_until True 1 499
        (update (scenario (Fin 2) (Some (Fin 0))) (mount (scenario (Fin 0) (Some (Fin 0))) 0)))
     = Some (Fin 0, Fin 0) \<and>
   map_option cells
     (run_until False 1 499
        (update (scenario (Fin 2) (Some (Fin 0))) (mount (scenario (Fin 0) (Some (Fin 0))) 0)))
     = Some (Fin 0, Fin 0)"
  by code_simp

text \<open>A negative duration does give a timer with no delay.\<close>

lemma negative_duration_is_instant:
  "transitionDuration p = Some (Fin d) \<Longrightarrow> d < 0 \<Longrightarrow> timeout_ms (transitionDuration' p) = 0"
  by (simp add: transitionDuration'_def)

section \<open>A first step that is not a whole number\<close>







section \<open>Setting the step back during a transition\<close>

lemma props_mount: "props (mount p t) = p"
  by (simp add: mount_def init_def cycle_defs Let_def)

text \<open>
  C2, as stated, fails. In Scenario C the request to go back to the displayed step meets
  the equality check and sets no timer: only the commit of the first request is pending.
  At time 600, when the half durations counted from both requests (500 and 600) have
  passed, step 1 is displayed at opacity 0, not step 0 at opacity 1, with and without
  batching.
\<close>
theorem set_back_counterexample:
  "run_until True 0 100 scenario_c_requested = Some (scenario_c_requested\<lparr>now := 100\<rparr>) \<and>
   run_until False 0 100 scenario_c_requested = Some (scenario_c_requested\<lparr>now := 100\<rparr>) \<and>
   timers scenario_c_set_back = [(500, Fin 1)] \<and>
   map_option cells (run_until True 2 600 scenario_c_set_back) = Some (Fin 1, Fin 0) \<and>
   map_option cells (run_until True 2 600 scenario_c_set_back) \<noteq> Some (Fin 0, Fin 1) \<and>
   map_option cells (run_until False 2 600 scenario_c_set_back) = Some (Fin 1, Fin 0) \<and>
   map_option cells (run_until False 2 600 scenario_c_set_back) \<noteq> Some (Fin 0, Fin 1)"
  by code_simp

text \<open>
  C2, amended. From the idle state, with a positive duration \<open>D\<close>: a step \<open>v\<close> is
  requested, and before \<open>D / 2\<close> has passed the displayed step is requested again. The
  second request sets no timer. The commit of the first fires at its time, \<open>D / 2\<close> after
  the first request, and displays \<open>v\<close>; the effect then runs again and starts a second fade,
  whose timer is due at \<open>D\<close> after the first request. Between the two the step \<open>v\<close> is
  displayed at opacity 0. When the second has fired the displayed step is the one requested
  last, the opacity is 1 and no timer is pending. All of this is so with and without
  batching.
\<close>

theorem set_back_runs_two_cycles:
  assumes "idle s" and "\<not> strict_eq v (delayedStep s)" and "v \<noteq> NaN"
      and "requested_duration (props s) = Fin D" and "0 < D"
      and "now s \<le> t1" and "t1 < now s + D / 2"
      and "now s + D / 2 \<le> t2" and "t2 < now s + D"
      and "now s + D \<le> t3"
  shows "let requested = update ((props s)\<lparr>currentStep := v\<rparr>) s;
             set_back = update (props s) (requested\<lparr>now := t1\<rparr>)
         in run_until batched n t1 requested = Some (requested\<lparr>now := t1\<rparr>) \<and>
            timers requested = [(now s + D / 2, v)] \<and>
            timers set_back = [(now s + D / 2, v)] \<and>
            cells set_back = (delayedStep s, Fin 0) \<and>
            map_option cells (run_until batched (Suc n) t2 set_back) = Some (v, Fin 0) \<and>
            map_option timers (run_until batched (Suc n) t2 set_back) =
              Some [(now s + D, currentStep (props s))] \<and>
            map_option cells (run_until batched (Suc (Suc n)) t3 set_back) =
              Some (currentStep (props s), Fin 1) \<and>
            map_option timers (run_until batched (Suc (Suc n)) t3 set_back) = Some []"
proof -
  let ?c = "currentStep (props s)" and ?d = "delayedStep s"
  let ?td = "transitionDuration' (props s)"
  from assms(4,5) have td: "?td = Fin (D / 2)"
    by (simp add: half_duration)
  from assms(1) have vis: "opacity s = Fin 1" and none: "timers s = []"
    and deps: "lastDeps s = Some (?c, ?d, ?td)"
    and shown: "strict_eq ?c ?d"
    by (simp_all add: idle_def effect_deps_def)
  from shown assms(2) have cv: "v \<noteq> ?c" and ncv: "\<not> strict_eq ?c v" and c_num: "?c \<noteq> NaN"
    by (auto simp: strict_eq_def)
  from assms(2,3) have vd: "v \<noteq> ?d"
    by (auto simp: strict_eq_def)
  define requested where "requested = update ((props s)\<lparr>currentStep := v\<rparr>) s"
  define set_back where "set_back = update (props s) (requested\<lparr>now := t1\<rparr>)"
  have req: "requested =
     s\<lparr>props := (props s)\<lparr>currentStep := v\<rparr>, opacity := Fin 0,
       lastDeps := Some (v, ?d, ?td),
       timers := [(now s + D / 2, v)],
       frames := frames s @ [(?d, Fin 1), (?d, Fin 0)]\<rparr>"
    unfolding requested_def
    using assms(2,5) deps cv vis none td
    by (subst update_request) (simp_all add: transitionDuration'_def)
  have due1: "next_due (timers requested) = Some (now s + D / 2, v)"
    by (simp add: req)
  have wait1: "run_until batched n t1 requested = Some (requested\<lparr>now := t1\<rparr>)"
    using run_until_wait [OF due1, of t1 batched n] assms(6,7) by (simp add: req max_def)
  have sb: "set_back =
     s\<lparr>opacity := Fin 0, lastDeps := Some (?c, ?d, ?td),
       timers := [(now s + D / 2, v)], now := t1,
       frames := frames s @ [(?d, Fin 1), (?d, Fin 0), (?d, Fin 0)]\<rparr>"
    unfolding set_back_def using shown
    by (subst update_equal) (simp_all add: req)
  have fire1: "fire_next batched set_back =
     Some (set_back\<lparr>delayedStep := v, opacity := Fin 0,
             timers := [(now s + D / 2 + timeout_ms ?td, ?c)], now := now s + D / 2,
             lastDeps := Some (?c, v, ?td),
             frames := frames set_back @
               (if batched then [(v, Fin 1), (v, Fin 0)] else [(v, Fin 0), (v, Fin 0)])\<rparr>)"
    using ncv vd vd [symmetric] assms(7)
    by (subst commit_then_refade [where due = "now s + D / 2" and step = v]) (simp_all add: sb)
  define refaded where "refaded =
     set_back\<lparr>delayedStep := v, opacity := Fin 0,
             timers := [(now s + D, ?c)], now := now s + D / 2,
             lastDeps := Some (?c, v, ?td),
             frames := frames set_back @
               (if batched then [(v, Fin 1), (v, Fin 0)] else [(v, Fin 0), (v, Fin 0)])\<rparr>"
  from fire1 td assms(5) have fire1': "fire_next batched set_back = Some refaded"
    by (simp add: refaded_def)
  have due2: "next_due (timers set_back) = Some (now s + D / 2, v)"
    by (simp add: sb)
  have due3: "next_due (timers refaded) = Some (now s + D, ?c)"
    by (simp add: refaded_def)
  have mid: "run_until batched (Suc n) t2 set_back = Some (refaded\<lparr>now := t2\<rparr>)"
    using run_until_fire [OF due2 _ fire1', of t2 n] run_until_wait [OF due3, of t2 batched n] assms(8,9)
    by (simp add: refaded_def max_def)
  have fire2: "fire_next batched refaded =
     Some (refaded\<lparr>delayedStep := ?c, opacity := Fin 1, timers := [], now := now s + D,
             lastDeps := Some (?c, ?c, transitionDuration' (props refaded)),
             frames := frames refaded @
               (if batched then [(?c, Fin 1)] else [(?c, Fin 0), (?c, Fin 1)])\<rparr>)"
    using c_num cv assms(5)
    by (subst commit_requested [where due = "now s + D" and step = ?c])
       (simp_all add: refaded_def sb)
  have fin: "run_until batched (Suc (Suc n)) t3 set_back =
     Some (refaded\<lparr>delayedStep := ?c, opacity := Fin 1, timers := [], now := t3,
             lastDeps := Some (?c, ?c, transitionDuration' (props refaded)),
             frames := frames refaded @
               (if batched then [(?c, Fin 1)] else [(?c, Fin 0), (?c, Fin 1)])\<rparr>)"
    using run_until_fire [OF due2 _ fire1', of t3 "Suc n"]
          run_until_fire [OF due3 _ fire2, of t3 n] assms(5,10)
    by (simp add: run_until_quiet max_def)
  show ?thesis
    unfolding Let_def requested_def [symmetric] set_back_def [symmetric]
    using wait1 mid fin
    by (simp add: cells_def) (simp add: req sb refaded_def)
qed


theorem set_back_runs_two_cycles_witness:
  "idle (mount (scenario (Fin 0) None) 0) \<and>
   \<not> strict_eq (Fin 1) (delayedStep (mount (scenario (Fin 0) None) 0)) \<and>
   requested_duration (props (mount (scenario (Fin 0) None) 0)) = Fin 1000 \<and>
   timers scenario_c_set_back = [(500, Fin 1)] \<and>
   map_option cells (run_until False (Suc 0) 600 scenario_c_set_back) = Some (Fin 1, Fin 0) \<and>
   map_option timers (run_until False (Suc 0) 600 scenario_c_set_back) = Some [(1000, Fin 0)] \<and>
   map_option cells (run_until False (Suc (Suc 0)) 1000 scenario_c_set_back) = Some (Fin 0, Fin 1) \<and>
   map_option timers (run_until False (Suc (Suc 0)) 1000 scenario_c_set_back) = Some []"
proof -
  let ?s = "mount (scenario (Fin 0) None) 0"
  have h1: "idle ?s" by code_simp
  have h2: "\<not> strict_eq (Fin 1) (delayedStep ?s)" by code_simp
  have h3: "Fin 1 \<noteq> NaN" by simp
  have h4: "requested_duration (props ?s) = Fin 1000"
    by (simp add: props_mount requested_duration_def scenario_def)
  have h5: "now ?s = 0" by code_simp
  have p1: "(props ?s)\<lparr>currentStep := Fin 1\<rparr> = scenario (Fin 1) None"
    by (simp add: props_mount scenario_def)
  have p0: "props ?s = scenario (Fin 0) None"
    by (simp add: props_mount)
  have c0: "currentStep (scenario (Fin 0) None :: string props) = Fin 0"
    by (simp add: scenario_def)
  from set_back_runs_two_cycles [OF h1 h2 h3 h4, of 100 600 1000 False 0]
  show ?thesis
    using h1 h2 h4
    by (simp add: h5 p1 Let_def scenario_c_set_back_def scenario_c_requested_def)
       (simp add: p0 c0)
qed

end
